theory Spec2Isabelle
  imports Main
begin

section \<open>Python values, errors and text helpers\<close>

text \<open>
  The exceptions the two modules can raise: \<open>IndexError\<close> from indexing a list or
  tuple out of range, \<open>StopIteration\<close> from \<open>next\<close> on a finished iterator and from
  \<open>LineNumbering.step\<close>.
\<close>

datatype error = IndexError | StopIteration

text \<open>
  The objects that reach \<open>str.format\<close> as a decoded argument: a name (\<open>str\<close>), a jump
  target (\<open>int\<close>), \<open>None\<close>, or any other constant of \<open>co_consts\<close>, kept as the text
  that \<open>str\<close> gives for it.
\<close>

datatype pyobj = PyStr string | PyInt int | PyNone | PyOther string

definition digit_char :: "nat \<Rightarrow> char" where
  "digit_char n = ''0123456789'' ! n"

fun str_nat :: "nat \<Rightarrow> string" where
  "str_nat n = (if n < 10 then [digit_char n] else str_nat (n div 10) @ [digit_char (n mod 10)])"

declare str_nat.simps [simp del]

definition str_int :: "int \<Rightarrow> string" where
  "str_int i = (if i < 0 then CHR ''-'' # str_nat (nat (- i)) else str_nat (nat i))"

fun str_obj :: "pyobj \<Rightarrow> string" where
  "str_obj (PyStr s) = s"
| "str_obj (PyInt i) = str_int i"
| "str_obj PyNone = ''None''"
| "str_obj (PyOther s) = s"

definition ljust :: "nat \<Rightarrow> string \<Rightarrow> string" where
  "ljust width s = s @ replicate (width - length s) CHR '' ''"

text \<open>Indexing a list or tuple with a non-negative index, as \<open>xs[i]\<close> does.\<close>

definition getitem :: "'a list \<Rightarrow> nat \<Rightarrow> error + 'a" where
  "getitem xs i = (if i < length xs then Inr (xs ! i) else Inl IndexError)"

text \<open>The slice \<open>xs[::2]\<close>; \<open>xs[1::2]\<close> is \<open>every_other (drop 1 xs)\<close>.\<close>

fun every_other :: "'a list \<Rightarrow> 'a list" where
  "every_other [] = []"
| "every_other [x] = [x]"
| "every_other (x # y # xs) = x # every_other xs"

section \<open>The code object and the tables of the dis module\<close>

text \<open>
  The fields of a code object that the disassembler reads. \<open>co_code\<close> and \<open>co_lnotab\<close>
  are the byte strings as \<open>list(bytearray(...))\<close> gives them.
\<close>

record CodeType =
  co_code :: "nat list"
  co_names :: "string list"
  co_varnames :: "string list"
  co_consts :: "pyobj list"
  co_firstlineno :: int
  co_lnotab :: "nat list"

text \<open>
  The standard-library module \<open>dis\<close> is not part of the repository: its tables are a
  parameter of the model. The \<open>has...\<close> fields are the attributes of \<open>dis\<close> whose name
  starts with \<open>has\<close>, in the order of \<open>dir(dis)\<close>.
\<close>

record dis_module =
  opname :: "string list"
  hascompare :: "nat list"
  hasconst :: "nat list"
  hasfree :: "nat list"
  hasjabs :: "nat list"
  hasjrel :: "nat list"
  haslocal :: "nat list"
  hasname :: "nat list"
  hasnargs :: "nat list"

section \<open>line\_numbering.py\<close>

type_synonym Step = "nat \<times> nat"

definition bytecode_step :: "Step \<Rightarrow> nat" where
  "bytecode_step st = fst st"

definition line_step :: "Step \<Rightarrow> nat" where
  "line_step st = snd st"

text \<open>
  \<open>iterator\<close> holds the pairs that \<open>next(self._iterator)\<close> has not yet returned.
\<close>

record LineNumbering =
  iterator :: "Step list"
  steps :: Step
  line_number :: int
  next_address :: nat
  is_exhausted :: bool

definition LineNumbering_init :: "CodeType \<Rightarrow> error + LineNumbering" where
  "LineNumbering_init co =
     (let raw = co_lnotab co;
          it = zip (every_other raw) (every_other (drop 1 raw))
      in case it of
           [] \<Rightarrow> Inl StopIteration
         | st # rest \<Rightarrow>
             Inr \<lparr>iterator = rest, steps = st,
                  line_number = co_firstlineno co + int (line_step st),
                  next_address = bytecode_step st,
                  is_exhausted = False\<rparr>)"

definition try_step :: "LineNumbering \<Rightarrow> LineNumbering" where
  "try_step ln =
     (case iterator ln of
        [] \<Rightarrow> ln\<lparr>is_exhausted := True\<rparr>
      | st # rest \<Rightarrow>
          ln\<lparr>iterator := rest, steps := st,
             next_address := next_address ln + bytecode_step st\<rparr>)"

definition step :: "LineNumbering \<Rightarrow> error + LineNumbering" where
  "step ln =
     (if is_exhausted ln then Inl StopIteration
      else Inr (try_step (ln\<lparr>line_number := line_number ln + int (line_step (steps ln))\<rparr>)))"

text \<open>
  \<open>at_new_line\<close> is a method: the model returns its result together with the object
  after the call.
\<close>

definition at_new_line :: "LineNumbering \<Rightarrow> nat \<Rightarrow> bool \<times> LineNumbering" where
  "at_new_line ln pc =
     (if is_exhausted ln then (False, ln) else (next_address ln \<le> pc, ln))"

text \<open>
  A call of a method of the line numbering, and the object after a call: a call of
  \<open>step\<close> that raises does so before its first assignment.
\<close>

datatype call = Step | TryStep | AtNewLine nat

fun after_call :: "LineNumbering \<Rightarrow> call \<Rightarrow> LineNumbering" where
  "after_call ln Step = (case step ln of Inl e \<Rightarrow> ln | Inr ln' \<Rightarrow> ln')"
| "after_call ln TryStep = try_step ln"
| "after_call ln (AtNewLine pc) = snd (at_new_line ln pc)"

definition after_calls :: "LineNumbering \<Rightarrow> call list \<Rightarrow> LineNumbering" where
  "after_calls ln cs = foldl after_call ln cs"

section \<open>disassembler.py\<close>

definition STOP_CODE :: nat where "STOP_CODE = 0"
definition POP_TOP :: nat where "POP_TOP = 1"
definition LINE_WIDTH :: nat where "LINE_WIDTH = 8"

definition FORMAT_WIDTH :: "dis_module \<Rightarrow> nat" where
  "FORMAT_WIDTH d = foldr max (map length (opname d)) 0 + LINE_WIDTH"

definition join_instructions_that_take_arguments :: "dis_module \<Rightarrow> nat set" where
  "join_instructions_that_take_arguments d =
     set (hascompare d @ hasconst d @ hasfree d @ hasjabs d @ hasjrel d
          @ haslocal d @ hasname d @ hasnargs d)"

text \<open>
  \<open>output_file\<close> is the list of the lines printed so far. \<open>printed_line_numbers\<close> is a
  history variable that no function reads: the values of the local \<open>line_number\<close> of
  \<open>_format_line_number\<close> that were numbers, in the order they were printed.
\<close>

record Disassembler =
  output_file :: "string list"
  code_object :: CodeType
  bytecode :: "nat list"
  instructions_taking_arguments :: "nat set"
  program_counter :: nat
  line_numbering :: LineNumbering
  printed_line_numbers :: "int list"

definition Disassembler_init :: "dis_module \<Rightarrow> CodeType \<Rightarrow> error + Disassembler" where
  "Disassembler_init d co =
     (case LineNumbering_init co of
        Inl e \<Rightarrow> Inl e
      | Inr ln \<Rightarrow>
          Inr \<lparr>output_file = [], code_object = co, bytecode = co_code co,
               instructions_taking_arguments = join_instructions_that_take_arguments d,
               program_counter = 0, line_numbering = ln, printed_line_numbers = []\<rparr>)"

definition current_instruction :: "Disassembler \<Rightarrow> error + nat" where
  "current_instruction s = getitem (bytecode s) (program_counter s)"

definition load_constant :: "Disassembler \<Rightarrow> nat \<Rightarrow> error + nat" where
  "load_constant s offset =
     (case getitem (bytecode s) (offset + 2) of
        Inl e \<Rightarrow> Inl e
      | Inr b2 \<Rightarrow>
          (case getitem (bytecode s) (offset + 1) of
             Inl e \<Rightarrow> Inl e
           | Inr low_byte \<Rightarrow> Inr (or (push_bit 8 b2) low_byte)))"

definition load_function_call_arguments :: "Disassembler \<Rightarrow> error + string" where
  "load_function_call_arguments s =
     (case getitem (bytecode s) (program_counter s + 1) of
        Inl e \<Rightarrow> Inl e
      | Inr number_of_positional \<Rightarrow>
          (case getitem (bytecode s) (program_counter s + 2) of
             Inl e \<Rightarrow> Inl e
           | Inr number_of_keyword \<Rightarrow>
               Inr (str_nat number_of_positional @ '' positional, ''
                    @ str_nat number_of_keyword @ '' keyword pair'')))"

definition load_argument :: "dis_module \<Rightarrow> Disassembler \<Rightarrow> nat \<Rightarrow> nat \<Rightarrow> error + pyobj" where
  "load_argument d s instruction constant =
     (if instruction \<in> set (hasname d) then
        map_sum id PyStr (getitem (co_names (code_object s)) constant)
      else if instruction \<in> set (haslocal d) then
        map_sum id PyStr (getitem (co_varnames (code_object s)) constant)
      else if instruction \<in> set (hasconst d) then
        getitem (co_consts (code_object s)) constant
      else if instruction \<in> set (hasnargs d) then
        map_sum id PyStr (load_function_call_arguments s)
      else if instruction \<in> set (hasjrel d) then
        Inr (PyInt (int (program_counter s + constant)))
      else if instruction \<in> set (hasjabs d) then
        Inr (PyInt (int constant))
      else Inr PyNone)"

text \<open>
  \<open>_format_line_number\<close>: the local \<open>line_number\<close> is \<open>None\<close> for the empty string and
  \<open>Some n\<close> for a number; \<open>print(file=...)\<close> adds an empty line.
\<close>

definition format_line_number :: "Disassembler \<Rightarrow> error + (string \<times> Disassembler)" where
  "format_line_number s =
     (let pc = program_counter s;
          (new_line, ln) = at_new_line (line_numbering s) pc;
          s0 = s\<lparr>line_numbering := ln\<rparr>
      in if new_line then
           (let s1 = (if pc > 0 then s0\<lparr>output_file := output_file s0 @ ['''']\<rparr> else s0);
                n = line_number (line_numbering s1)
            in case step (line_numbering s1) of
                 Inl e \<Rightarrow> Inl e
               | Inr ln' \<Rightarrow>
                   Inr (ljust LINE_WIDTH (str_int n),
                        s1\<lparr>line_numbering := ln',
                           printed_line_numbers := printed_line_numbers s1 @ [n]\<rparr>))
         else if pc = 0 then
           (let n = line_number (line_numbering s0)
            in Inr (ljust LINE_WIDTH (str_int n),
                    s0\<lparr>printed_line_numbers := printed_line_numbers s0 @ [n]\<rparr>))
         else Inr (ljust LINE_WIDTH '''', s0))"

definition print_instruction ::
  "dis_module \<Rightarrow> Disassembler \<Rightarrow> nat \<Rightarrow> (nat \<times> pyobj) option \<Rightarrow> error + Disassembler" where
  "print_instruction d s instruction argument =
     (case getitem (opname d) instruction of
        Inl e \<Rightarrow> Inl e
      | Inr instruction_name \<Rightarrow>
          (case format_line_number s of
             Inl e \<Rightarrow> Inl e
           | Inr (field, s1) \<Rightarrow>
               (let line = field @ str_nat (program_counter s1) @ '' '' @ instruction_name;
                    line' = (case argument of
                               None \<Rightarrow> line
                             | Some (constant, arg) \<Rightarrow>
                                 ljust (FORMAT_WIDTH d) line
                                 @ str_nat constant @ '' ('' @ str_obj arg @ '')'')
                in Inr (s1\<lparr>output_file := output_file s1 @ [line']\<rparr>))))"

definition disassemble_instruction :: "dis_module \<Rightarrow> Disassembler \<Rightarrow> nat \<Rightarrow> error + Disassembler" where
  "disassemble_instruction d s instruction =
     (if instruction \<in> instructions_taking_arguments s then
        (case load_constant s (program_counter s) of
           Inl e \<Rightarrow> Inl e
         | Inr constant \<Rightarrow>
             (case load_argument d s instruction constant of
                Inl e \<Rightarrow> Inl e
              | Inr argument \<Rightarrow>
                  (case print_instruction d s instruction (Some (constant, argument)) of
                     Inl e \<Rightarrow> Inl e
                   | Inr s1 \<Rightarrow> Inr (s1\<lparr>program_counter := program_counter s1 + 2 + 1\<rparr>))))
      else
        (case print_instruction d s instruction None of
           Inl e \<Rightarrow> Inl e
         | Inr s1 \<Rightarrow> Inr (s1\<lparr>program_counter := program_counter s1 + 1\<rparr>)))"

definition at_stop_sequence :: "Disassembler \<Rightarrow> nat \<Rightarrow> error + bool" where
  "at_stop_sequence s instruction =
     (if instruction \<noteq> POP_TOP then Inr False
      else if program_counter s + 1 = length (bytecode s) then Inr False
      else (case getitem (bytecode s) (program_counter s + 1) of
              Inl e \<Rightarrow> Inl e
            | Inr b \<Rightarrow> if b \<noteq> STOP_CODE then Inr False else Inr True))"

text \<open>
  One turn of the \<open>while\<close> loop of \<open>disassemble\<close>, for a program counter inside the
  bytecode.
\<close>

definition loop_body :: "dis_module \<Rightarrow> Disassembler \<Rightarrow> error + Disassembler" where
  "loop_body d s =
     (case current_instruction s of
        Inl e \<Rightarrow> Inl e
      | Inr instruction \<Rightarrow>
          (case at_stop_sequence s instruction of
             Inl e \<Rightarrow> Inl e
           | Inr True \<Rightarrow> Inr (s\<lparr>program_counter := program_counter s + 2\<rparr>)
           | Inr False \<Rightarrow> disassemble_instruction d s instruction))"

section \<open>Results of a walk, and example inputs\<close>

text \<open>
  The object at the end of a walk, whether the walk returned or raised.
\<close>

definition final_state :: "(error \<times> Disassembler) + Disassembler \<Rightarrow> Disassembler" where
  "final_state r = (case r of Inl (e, s) \<Rightarrow> s | Inr s \<Rightarrow> s)"

definition example_opname :: "string list" where
  "example_opname =
     (map (\<lambda>i. ''<'' @ str_nat i @ ''>'') [0..<256])
       [1 := ''POP_TOP'', 9 := ''NOP'', 100 := ''LOAD_CONST'', 101 := ''LOAD_NAME'',
        107 := ''COMPARE_OP'', 110 := ''JUMP_FORWARD'', 113 := ''JUMP_ABSOLUTE'',
        124 := ''LOAD_FAST'', 131 := ''CALL_FUNCTION'', 136 := ''LOAD_DEREF'',
        142 := ''CALL_FUNCTION_VAR_KW'']"

definition example_dis :: dis_module where
  "example_dis =
     \<lparr>opname = example_opname,
      hascompare = [107],
      hasconst = [100],
      hasfree = [135, 136, 137, 138, 148],
      hasjabs = [111, 112, 113, 114, 115, 119],
      hasjrel = [93, 110, 120, 121, 122, 143, 154],
      haslocal = [124, 125, 126],
      hasname = [90, 91, 95, 96, 97, 98, 101, 106, 108, 109, 116],
      hasnargs = [131, 140, 141, 142]\<rparr>"

definition example_code :: CodeType where
  "example_code =
     \<lparr>co_code = [9, 101, 0, 0], co_names = [''x''], co_varnames = [], co_consts = [],
      co_firstlineno = 1, co_lnotab = [0, 0]\<rparr>"

definition example_start :: Disassembler where
  "example_start =
     \<lparr>output_file = [], code_object = example_code, bytecode = [9, 101, 0, 0],
      instructions_taking_arguments = join_instructions_that_take_arguments example_dis,
      program_counter = 0,
      line_numbering = \<lparr>iterator = [], steps = (0, 0), line_number = 1, next_address = 0,
                          is_exhausted = False\<rparr>,
      printed_line_numbers = []\<rparr>"

definition example_middle :: Disassembler where
  "example_middle =
     example_start\<lparr>output_file := [''1       0 NOP''], program_counter := 1,
       line_numbering := \<lparr>iterator = [], steps = (0, 0), line_number = 1, next_address = 0,
                          is_exhausted = True\<rparr>,
       printed_line_numbers := [1]\<rparr>"

definition example_final :: Disassembler where
  "example_final =
     example_middle\<lparr>output_file := [''1       0 NOP'', ''        1 LOAD_NAME         0 (x)''],
       program_counter := 4\<rparr>"

definition printed_ok :: "Disassembler \<Rightarrow> bool" where
  "printed_ok s \<longleftrightarrow>
     sorted (printed_line_numbers s)
     \<and> (\<forall>n\<in>set (printed_line_numbers s). n \<le> line_number (line_numbering s))"

definition operand_in_range :: "dis_module \<Rightarrow> Disassembler \<Rightarrow> nat \<Rightarrow> nat \<Rightarrow> bool" where
  "operand_in_range d s instruction constant =
     (if instruction \<in> set (hasname d) then constant < length (co_names (code_object s))
      else if instruction \<in> set (haslocal d) then constant < length (co_varnames (code_object s))
      else if instruction \<in> set (hasconst d) then constant < length (co_consts (code_object s))
      else True)"



definition example_compare_code :: CodeType where
  "example_compare_code = example_code\<lparr>co_code := [107, 2, 0]\<rparr>"

definition example_compare :: Disassembler where
  "example_compare =
     example_start\<lparr>code_object := example_compare_code, bytecode := [107, 2, 0]\<rparr>"

definition example_call_code :: CodeType where
  "example_call_code = example_code\<lparr>co_code := [131, 2, 1]\<rparr>"

definition example_call :: Disassembler where
  "example_call =
     example_start\<lparr>code_object := example_call_code, bytecode := [131, 2, 1]\<rparr>"

definition example_jump_code :: CodeType where
  "example_jump_code =
     example_code\<lparr>co_code := [1, 0, 1, 0, 1, 0, 1, 0, 1, 0, 110, 5, 0]\<rparr>"

definition example_jump_start :: Disassembler where
  "example_jump_start =
     example_start\<lparr>code_object := example_jump_code,
       bytecode := [1, 0, 1, 0, 1, 0, 1, 0, 1, 0, 110, 5, 0]\<rparr>"

definition example_jump :: Disassembler where
  "example_jump = example_jump_start\<lparr>program_counter := 10\<rparr>"

definition example_truncated_code :: CodeType where
  "example_truncated_code = example_code\<lparr>co_code := [9, 101, 0]\<rparr>"

definition example_bad_index_code :: CodeType where
  "example_bad_index_code = example_code\<lparr>co_code := [101, 5, 0]\<rparr>"

definition example_bad_index :: Disassembler where
  "example_bad_index =
     example_start\<lparr>code_object := example_bad_index_code, bytecode := [101, 5, 0]\<rparr>"

definition example_truncated :: Disassembler where
  "example_truncated =
     example_start\<lparr>code_object := example_truncated_code, bytecode := [9, 101, 0]\<rparr>"

definition example_truncated_failed :: Disassembler where
  "example_truncated_failed =
     example_truncated\<lparr>output_file := [''1       0 NOP''], program_counter := 1,
       line_numbering := \<lparr>iterator = [], steps = (0, 0), line_number = 1, next_address = 0,
                          is_exhausted = True\<rparr>,
       printed_line_numbers := [1]\<rparr>"

definition example_lines_code :: CodeType where
  "example_lines_code =
     \<lparr>co_code = [9, 9, 9], co_names = [], co_varnames = [], co_consts = [],
      co_firstlineno = 1, co_lnotab = [0, 1, 1, 1, 1, 1]\<rparr>"

definition example_lines_start :: Disassembler where
  "example_lines_start =
     \<lparr>output_file = [], code_object = example_lines_code, bytecode = [9, 9, 9],
      instructions_taking_arguments = join_instructions_that_take_arguments example_dis,
      program_counter = 0,
      line_numbering = \<lparr>iterator = [(1, 1), (1, 1)], steps = (0, 1), line_number = 2,
                          next_address = 0, is_exhausted = False\<rparr>,
      printed_line_numbers = []\<rparr>"

definition example_lines_middle :: Disassembler where
  "example_lines_middle =
     example_lines_start
       \<lparr>output_file := [''2       0 NOP''], program_counter := 1,
        line_numbering := \<lparr>iterator = [(1, 1)], steps = (1, 1), line_number = 3,
                            next_address = 1, is_exhausted = False\<rparr>,
        printed_line_numbers := [2]\<rparr>"

definition example_lines_later :: Disassembler where
  "example_lines_later =
     example_lines_start
       \<lparr>output_file := [''2       0 NOP'', '''', ''3       1 NOP''], program_counter := 2,
        line_numbering := \<lparr>iterator = [], steps = (1, 1), line_number = 4,
                            next_address = 2, is_exhausted = False\<rparr>,
        printed_line_numbers := [2, 3]\<rparr>"

definition example_lines_final :: Disassembler where
  "example_lines_final =
     example_lines_start
       \<lparr>output_file := [''2       0 NOP'', '''', ''3       1 NOP'', '''', ''4       2 NOP''],
        program_counter := 3,
        line_numbering := \<lparr>iterator = [], steps = (1, 1), line_number = 5,
                            next_address = 2, is_exhausted = True\<rparr>,
        printed_line_numbers := [2, 3, 4]\<rparr>"

section \<open>What one call leaves unchanged\<close>

lemma try_step_exhausted: "is_exhausted ln \<Longrightarrow> is_exhausted (try_step ln)"
  by (simp add: try_step_def split: list.splits)

lemma try_step_line_number: "line_number (try_step ln) = line_number ln"
  by (simp add: try_step_def split: list.splits)

lemma step_active: "\<not> is_exhausted ln \<Longrightarrow>
    step ln = Inr (try_step (ln\<lparr>line_number := line_number ln + int (line_step (steps ln))\<rparr>))"
  by (simp add: step_def)

lemma step_exhausted: "is_exhausted ln \<Longrightarrow> step ln = Inl StopIteration"
  by (simp add: step_def)

lemma format_line_number_eq:
  "format_line_number s =
     (let pc = program_counter s; ln = line_numbering s in
      if \<not> is_exhausted ln \<and> next_address ln \<le> pc then
        Inr (ljust LINE_WIDTH (str_int (line_number ln)),
             s\<lparr>output_file := (if pc > 0 then output_file s @ [''''] else output_file s),
                line_numbering :=
                  try_step (ln\<lparr>line_number := line_number ln + int (line_step (steps ln))\<rparr>),
                printed_line_numbers := printed_line_numbers s @ [line_number ln]\<rparr>)
      else if pc = 0 then
        Inr (ljust LINE_WIDTH (str_int (line_number ln)),
             s\<lparr>printed_line_numbers := printed_line_numbers s @ [line_number ln]\<rparr>)
      else Inr (ljust LINE_WIDTH '''', s))"
  by (simp add: format_line_number_def at_new_line_def step_def Let_def)

lemma format_line_number_total:
  "\<exists>field s'. format_line_number s = Inr (field, s')
     \<and> program_counter s' = program_counter s \<and> bytecode s' = bytecode s
     \<and> code_object s' = code_object s
     \<and> instructions_taking_arguments s' = instructions_taking_arguments s"
  by (simp add: format_line_number_eq Let_def)

lemma print_instruction_frame:
  assumes "print_instruction d s instruction argument = Inr s'"
  shows "program_counter s' = program_counter s \<and> bytecode s' = bytecode s
     \<and> code_object s' = code_object s
     \<and> instructions_taking_arguments s' = instructions_taking_arguments s"
proof -
  obtain field s1 where f: "format_line_number s = Inr (field, s1)"
    and k: "program_counter s1 = program_counter s" "bytecode s1 = bytecode s"
      "code_object s1 = code_object s"
      "instructions_taking_arguments s1 = instructions_taking_arguments s"
    using format_line_number_total [of s] by blast
  from assms f have "\<exists>l. s' = s1\<lparr>output_file := l\<rparr>"
    by (simp add: print_instruction_def Let_def getitem_def split: if_splits) blast
  then obtain l where "s' = s1\<lparr>output_file := l\<rparr>" ..
  with k show ?thesis by simp
qed

lemma disassemble_instruction_frame:
  assumes "disassemble_instruction d s instruction = Inr s'"
  shows "bytecode s' = bytecode s \<and> code_object s' = code_object s
     \<and> instructions_taking_arguments s' = instructions_taking_arguments s
     \<and> program_counter s' =
         program_counter s + (if instruction \<in> instructions_taking_arguments s then 3 else 1)"
proof (cases "instruction \<in> instructions_taking_arguments s")
  case True
  with assms obtain arg s1 where p: "print_instruction d s instruction arg = Inr s1"
    and e: "s' = s1\<lparr>program_counter := program_counter s1 + 2 + 1\<rparr>"
    by (simp add: disassemble_instruction_def split: sum.splits)
  from print_instruction_frame [OF p] e True show ?thesis by simp
next
  case False
  with assms obtain s1 where p: "print_instruction d s instruction None = Inr s1"
    and e: "s' = s1\<lparr>program_counter := program_counter s1 + 1\<rparr>"
    by (simp add: disassemble_instruction_def split: sum.splits)
  from print_instruction_frame [OF p] e False show ?thesis by simp
qed

lemma at_stop_sequence_True:
  "at_stop_sequence s instruction = Inr True \<Longrightarrow> program_counter s + 1 < length (bytecode s)"
  by (simp add: at_stop_sequence_def getitem_def split: if_splits)

lemma loop_body_frame:
  assumes "loop_body d s = Inr s'"
  shows "bytecode s' = bytecode s \<and> code_object s' = code_object s
     \<and> instructions_taking_arguments s' = instructions_taking_arguments s
     \<and> program_counter s < program_counter s'"
proof -
  from assms obtain instruction b where c: "current_instruction s = Inr instruction"
    and a: "at_stop_sequence s instruction = Inr b"
    and r: "(if b then Inr (s\<lparr>program_counter := program_counter s + 2\<rparr>)
             else disassemble_instruction d s instruction) = Inr s'"
    by (simp add: loop_body_def split: sum.splits bool.splits)
  show ?thesis
  proof (cases b)
    case True
    with r show ?thesis by auto
  next
    case False
    with r have "disassemble_instruction d s instruction = Inr s'" by simp
    from disassemble_instruction_frame [OF this] show ?thesis by simp
  qed
qed

section \<open>The loop of disassemble\<close>

text \<open>
  The \<open>while\<close> loop of \<open>disassemble\<close>. An exception leaves the loop: the result is then
  the exception with the object as it was when the failing turn began.
\<close>

function disassemble :: "dis_module \<Rightarrow> Disassembler \<Rightarrow> (error \<times> Disassembler) + Disassembler" where
  "disassemble d s =
     (if program_counter s < length (bytecode s) then
        (case loop_body d s of
           Inl e \<Rightarrow> Inl (e, s)
         | Inr s' \<Rightarrow> disassemble d s')
      else Inr s)"
  by pat_completeness auto
termination
proof (relation "measure (\<lambda>(d, s). length (bytecode s) - program_counter s)")
  show "wf (measure (\<lambda>(d, s). length (bytecode s) - program_counter s))" by simp
next
  fix d s s'
  assume "program_counter s < length (bytecode s)" and "loop_body d s = Inr s'"
  then show "((d, s'), (d, s)) \<in> measure (\<lambda>(d, s). length (bytecode s) - program_counter s)"
    using loop_body_frame [of d s s'] by auto
qed

declare disassemble.simps [simp del]

section \<open>Properties of the loop\<close>

lemma disassemble_invariant:
  assumes "P s"
    and "\<And>s s'. P s \<Longrightarrow> program_counter s < length (bytecode s) \<Longrightarrow> loop_body d s = Inr s' \<Longrightarrow> P s'"
  shows "P (final_state (disassemble d s))"
  using assms
proof (induction d s rule: disassemble.induct)
  case (1 d s)
  show ?case
  proof (cases "program_counter s < length (bytecode s)")
    case False
    with "1.prems" show ?thesis by (simp add: disassemble.simps final_state_def)
  next
    case True
    show ?thesis
    proof (cases "loop_body d s")
      case (Inl e)
      with True "1.prems" show ?thesis by (simp add: disassemble.simps final_state_def)
    next
      case (Inr s')
      with True "1.prems" have "P s'" by blast
      with "1.IH" [OF True Inr] "1.prems"(2) have "P (final_state (disassemble d s'))" by blast
      with True Inr show ?thesis by (simp add: disassemble.simps [of d s])
    qed
  qed
qed

lemma print_instruction_Inr:
  assumes "print_instruction d s instruction argument = Inr s'"
  shows "\<exists>field s1 l. format_line_number s = Inr (field, s1)
           \<and> s' = s1\<lparr>output_file := output_file s1 @ [l]\<rparr>"
proof -
  obtain field s1 where f: "format_line_number s = Inr (field, s1)"
    using format_line_number_total [of s] by blast
  from assms f show ?thesis
    by (simp add: print_instruction_def Let_def getitem_def split: if_splits) blast
qed

lemma disassemble_instruction_Inr:
  assumes "disassemble_instruction d s instruction = Inr s'"
  shows "\<exists>field s1. format_line_number s = Inr (field, s1)
           \<and> line_numbering s' = line_numbering s1
           \<and> printed_line_numbers s' = printed_line_numbers s1"
proof -
  from assms obtain arg s2 n where p: "print_instruction d s instruction arg = Inr s2"
    and e: "s' = s2\<lparr>program_counter := n\<rparr>"
    by (simp add: disassemble_instruction_def split: sum.splits if_splits) blast+
  from print_instruction_Inr [OF p] e show ?thesis by auto
qed

lemma loop_body_Inr:
  assumes "loop_body d s = Inr s'"
  shows "(line_numbering s' = line_numbering s \<and> printed_line_numbers s' = printed_line_numbers s)
       \<or> (\<exists>field s1. format_line_number s = Inr (field, s1)
           \<and> line_numbering s' = line_numbering s1
           \<and> printed_line_numbers s' = printed_line_numbers s1)"
proof -
  from assms consider (skip) "s' = s\<lparr>program_counter := program_counter s + 2\<rparr>"
    | (instr) instruction where "disassemble_instruction d s instruction = Inr s'"
    by (auto simp: loop_body_def split: sum.splits bool.splits)
  then show ?thesis
  proof cases
    case skip
    then show ?thesis by simp
  next
    case instr
    from disassemble_instruction_Inr [OF this] show ?thesis by blast
  qed
qed

lemma example_opname_length: "length example_opname = 256"
  by (simp add: example_opname_def)
lemma example_opname_nth: "example_opname ! 9 = ''NOP''" "example_opname ! 101 = ''LOAD_NAME''"
  by (simp_all add: example_opname_def)

lemma foldr_max_le: "(\<forall>x\<in>set xs. f x \<le> m) \<Longrightarrow> foldr max (map f xs) 0 \<le> (m::nat)"
  by (induction xs) auto

lemma foldr_max_ge: "x \<in> set xs \<Longrightarrow> f x \<le> foldr max (map f xs) (0::nat)"
  by (induction xs) auto

lemma str_nat_length_le3: "n < 1000 \<Longrightarrow> length (str_nat n) \<le> 3"
  by (simp add: str_nat.simps [of n] str_nat.simps [of "n div 10"]
      str_nat.simps [of "n div 10 div 10"] str_nat.simps [of "n div 100"])

lemma in_set_update: "x \<in> set (xs[i := v]) \<Longrightarrow> x = v \<or> x \<in> set xs"
  using set_update_subset_insert [of xs i v] by auto

lemma example_opname_bound: "x \<in> set example_opname \<Longrightarrow> length x \<le> 20"
proof -
  have "length (str_nat i) \<le> 18" if "i < 256" for i
    using str_nat_length_le3 [of i] that by simp
  then show "x \<in> set example_opname \<Longrightarrow> length x \<le> 20"
    unfolding example_opname_def by (auto dest!: in_set_update)
qed

lemma example_FORMAT_WIDTH: "FORMAT_WIDTH example_dis = 28"
proof -
  have "example_opname ! 142 \<in> set example_opname"
    by (rule nth_mem) (simp add: example_opname_length)
  then have "''CALL_FUNCTION_VAR_KW'' \<in> set example_opname"
    by (simp add: example_opname_def)
  from foldr_max_ge [OF this, of length]
  have "20 \<le> foldr max (map length example_opname) 0" by simp
  moreover have "foldr max (map length example_opname) 0 \<le> 20"
    by (rule foldr_max_le) (simp add: example_opname_bound)
  ultimately show ?thesis by (simp add: FORMAT_WIDTH_def example_dis_def LINE_WIDTH_def)
qed

lemma example_dis_fields:
  "opname example_dis = example_opname"
  "hascompare example_dis = [107]"
  "hasconst example_dis = [100]"
  "hasfree example_dis = [135, 136, 137, 138, 148]"
  "hasjabs example_dis = [111, 112, 113, 114, 115, 119]"
  "hasjrel example_dis = [93, 110, 120, 121, 122, 143, 154]"
  "haslocal example_dis = [124, 125, 126]"
  "hasname example_dis = [90, 91, 95, 96, 97, 98, 101, 106, 108, 109, 116]"
  "hasnargs example_dis = [131, 140, 141, 142]"
  by (simp_all add: example_dis_def)

lemma str_nat_digit: "n < 10 \<Longrightarrow> str_nat n = [digit_char n]"
  by (simp add: str_nat.simps [of n])

lemma str_nat_two_digits:
  "10 \<le> n \<Longrightarrow> n < 100 \<Longrightarrow> str_nat n = [digit_char (n div 10), digit_char (n mod 10)]"
  by (simp add: str_nat.simps [of n] str_nat_digit)

lemma replicate_num: "replicate (numeral k) x = x # replicate (pred_numeral k) x"
  by (simp add: numeral_eq_Suc)

lemma disassemble_done:
  "\<not> program_counter s < length (bytecode s) \<Longrightarrow> disassemble d s = Inr s"
  by (simp add: disassemble.simps)

lemma disassemble_step:
  "program_counter s < length (bytecode s) \<Longrightarrow> loop_body d s = Inr s'
     \<Longrightarrow> disassemble d s = disassemble d s'"
  by (simp add: disassemble.simps [of d s])

lemma disassemble_fail:
  "program_counter s < length (bytecode s) \<Longrightarrow> loop_body d s = Inl e
     \<Longrightarrow> disassemble d s = Inl (e, s)"
  by (simp add: disassemble.simps [of d s])

lemmas eval_defs =
  loop_body_def current_instruction_def at_stop_sequence_def
  disassemble_instruction_def print_instruction_def format_line_number_eq
  load_argument_def load_constant_def load_function_call_arguments_def getitem_def
  join_instructions_that_take_arguments_def try_step_def
  line_step_def bytecode_step_def ljust_def str_int_def replicate_num str_nat_digit str_nat_two_digits digit_char_def
  POP_TOP_def STOP_CODE_def LINE_WIDTH_def Let_def
  example_dis_fields example_opname_length example_FORMAT_WIDTH

lemma example_init: "Disassembler_init example_dis example_code = Inr example_start"
  by (simp add: Disassembler_init_def LineNumbering_init_def example_code_def example_start_def
      line_step_def bytecode_step_def)

lemma example_turn1: "loop_body example_dis example_start = Inr example_middle"
  by (simp add: eval_defs example_start_def example_middle_def example_code_def example_opname_nth)

lemma example_turn2: "loop_body example_dis example_middle = Inr example_final"
  by (simp add: eval_defs example_start_def example_middle_def example_final_def
      example_code_def example_opname_nth)

lemma example_run: "disassemble example_dis example_start = Inr example_final"
proof -
  have "disassemble example_dis example_start = disassemble example_dis example_middle"
    by (rule disassemble_step [OF _ example_turn1]) (simp add: example_start_def)
  also have "\<dots> = disassemble example_dis example_final"
    by (rule disassemble_step [OF _ example_turn2]) (simp add: example_middle_def example_start_def)
  also have "\<dots> = Inr example_final"
    by (rule disassemble_done) (simp add: example_final_def example_middle_def example_start_def)
  finally show ?thesis .
qed

subsection \<open>The line numbering alone\<close>

lemma after_call_exhausted: "is_exhausted ln \<Longrightarrow> is_exhausted (after_call ln c)"
  by (cases c) (simp_all add: step_def try_step_exhausted at_new_line_def)

lemma after_calls_exhausted: "is_exhausted ln \<Longrightarrow> is_exhausted (after_calls ln cs)"
  unfolding after_calls_def
  by (induction cs arbitrary: ln) (simp_all add: after_call_exhausted)

lemma after_call_line_number: "line_number ln \<le> line_number (after_call ln c)"
  by (cases c) (simp_all add: step_def try_step_line_number at_new_line_def)

lemma after_calls_line_number: "line_number ln \<le> line_number (after_calls ln cs)"
  unfolding after_calls_def
proof (induction cs arbitrary: ln)
  case Nil
  show ?case by simp
next
  case (Cons c cs)
  have "line_number ln \<le> line_number (after_call ln c)" by (rule after_call_line_number)
  also have "\<dots> \<le> line_number (foldl after_call (after_call ln c) cs)" by (rule Cons.IH)
  finally show ?case by simp
qed

subsection \<open>The line numbering during the walk\<close>

lemma format_line_number_exhausted:
  "is_exhausted (line_numbering s) \<Longrightarrow> format_line_number s = Inr (field, s1)
     \<Longrightarrow> line_numbering s1 = line_numbering s"
  by (auto simp add: format_line_number_eq Let_def split: if_splits)

lemma loop_body_exhausted:
  assumes "is_exhausted (line_numbering s)" and "loop_body d s = Inr s'"
  shows "line_numbering s' = line_numbering s"
  using loop_body_Inr [OF assms(2)] format_line_number_exhausted [OF assms(1)] by auto

lemma disassemble_exhausted:
  assumes "is_exhausted (line_numbering s)"
  shows "line_numbering (final_state (disassemble d s)) = line_numbering s"
proof (rule disassemble_invariant [where P = "\<lambda>t. line_numbering t = line_numbering s"])
  show "line_numbering s = line_numbering s" ..
next
  fix t t'
  assume "line_numbering t = line_numbering s" and "loop_body d t = Inr t'"
  with assms loop_body_exhausted [of t d t'] show "line_numbering t' = line_numbering s"
    by simp
qed

lemma format_line_number_printed_ok:
  "printed_ok s \<Longrightarrow> format_line_number s = Inr (field, s1) \<Longrightarrow> printed_ok s1"
  by (fastforce simp add: format_line_number_eq Let_def printed_ok_def sorted_append
      try_step_line_number split: if_splits)

lemma loop_body_printed_ok:
  assumes "printed_ok s" and "loop_body d s = Inr s'"
  shows "printed_ok s'"
  using loop_body_Inr [OF assms(2)] format_line_number_printed_ok [OF assms(1)] assms(1)
  by (auto simp: printed_ok_def)

lemma disassemble_printed_ok:
  "printed_ok s \<Longrightarrow> printed_ok (final_state (disassemble d s))"
  by (rule disassemble_invariant [where P = printed_ok]) (auto intro: loop_body_printed_ok)

lemma Disassembler_init_printed_ok: "Disassembler_init d co = Inr s \<Longrightarrow> printed_ok s"
  by (auto simp: Disassembler_init_def printed_ok_def split: sum.splits)

section \<open>One instruction, and when a walk raises\<close>

lemma load_constant_eq:
  "program_counter s + 2 < length (bytecode s) \<Longrightarrow>
   load_constant s (program_counter s) =
     Inr (or (push_bit 8 (bytecode s ! (program_counter s + 2)))
             (bytecode s ! (program_counter s + 1)))"
  by (simp add: load_constant_def getitem_def)

lemma load_constant_fails:
  "\<not> program_counter s + 2 < length (bytecode s) \<Longrightarrow>
   load_constant s (program_counter s) = Inl IndexError"
  by (simp add: load_constant_def getitem_def)

lemma print_instruction_eq:
  assumes "instruction < length (opname d)" and "format_line_number s = Inr (field, s1)"
  shows "print_instruction d s instruction argument =
     Inr (s1\<lparr>output_file := output_file s1 @
           [case argument of
              None \<Rightarrow> field @ str_nat (program_counter s1) @ '' '' @ opname d ! instruction
            | Some (constant, arg) \<Rightarrow>
                ljust (FORMAT_WIDTH d)
                  (field @ str_nat (program_counter s1) @ '' '' @ opname d ! instruction)
                @ str_nat constant @ '' ('' @ str_obj arg @ '')'']\<rparr>)"
  using assms by (cases argument) (simp_all add: print_instruction_def getitem_def Let_def)

lemma format_line_number_program_counter:
  "format_line_number s = Inr (field, s1) \<Longrightarrow> program_counter s1 = program_counter s"
  using format_line_number_total [of s] by auto

lemma disassemble_instruction_operand:
  assumes t: "instruction \<in> instructions_taking_arguments s"
    and c: "load_constant s (program_counter s) = Inr constant"
    and a: "load_argument d s instruction constant = Inr argument"
    and n: "instruction < length (opname d)"
    and f: "format_line_number s = Inr (field, s1)"
  shows "disassemble_instruction d s instruction =
     Inr (s1\<lparr>output_file := output_file s1 @
             [ljust (FORMAT_WIDTH d)
                (field @ str_nat (program_counter s) @ '' '' @ opname d ! instruction)
              @ str_nat constant @ '' ('' @ str_obj argument @ '')''],
            program_counter := program_counter s + 3\<rparr>)"
  using t c a format_line_number_program_counter [OF f]
  by (simp add: disassemble_instruction_def print_instruction_eq [OF n f])

lemma or_push_bit_low: "lo < 256 \<Longrightarrow> or (push_bit 8 hi) lo mod 256 = (lo::nat)"
proof -
  assume l: "lo < 256"
  have "take_bit 8 (or (push_bit 8 hi) lo) = take_bit 8 lo"
    by (simp add: take_bit_or take_bit_push_bit)
  also have "\<dots> = lo" using l by (simp add: take_bit_eq_mod)
  finally show ?thesis by (simp add: take_bit_eq_mod)
qed

lemma or_push_bit_high: "lo < 256 \<Longrightarrow> or (push_bit 8 hi) lo div 256 = (hi::nat)"
proof -
  assume l: "lo < 256"
  have "drop_bit 8 (or (push_bit 8 hi) lo) = or hi (drop_bit 8 lo)"
    by (simp add: drop_bit_or drop_bit_push_bit)
  also have "drop_bit 8 lo = 0" using l by (simp add: drop_bit_eq_div)
  finally show ?thesis by (simp add: drop_bit_eq_div)
qed

lemma load_argument_in_range:
  assumes "program_counter s + 2 < length (bytecode s)"
    and "operand_in_range d s instruction constant"
  shows "\<exists>a. load_argument d s instruction constant = Inr a"
  using assms
  by (simp add: load_argument_def operand_in_range_def load_function_call_arguments_def
      getitem_def split: if_splits)

lemma load_argument_out_of_range:
  assumes "\<not> operand_in_range d s instruction constant"
  shows "load_argument d s instruction constant = Inl IndexError"
  using assms
  by (simp add: load_argument_def operand_in_range_def getitem_def split: if_splits)

lemma example_opname_nth_107: "example_opname ! 107 = ''COMPARE_OP''"
  by (simp add: example_opname_def)

lemma load_argument_Inl:
  assumes "program_counter s + 2 < length (bytecode s)"
    and "load_argument d s instruction constant = Inl e"
  shows "e = IndexError \<and> \<not> operand_in_range d s instruction constant"
proof (cases "operand_in_range d s instruction constant")
  case True
  from load_argument_in_range [OF assms(1) True] assms(2) show ?thesis by auto
next
  case False
  from load_argument_out_of_range [OF False] assms(2) False show ?thesis by simp
qed

lemma print_instruction_total:
  "instruction < length (opname d) \<Longrightarrow> \<exists>s'. print_instruction d s instruction argument = Inr s'"
  using format_line_number_total [of s] print_instruction_eq [of instruction d s]
  by blast

lemma disassemble_instruction_Inl:
  assumes n: "instruction < length (opname d)"
    and r: "disassemble_instruction d s instruction = Inl e"
  shows "e = IndexError \<and> instruction \<in> instructions_taking_arguments s
       \<and> (\<not> program_counter s + 2 < length (bytecode s)
          \<or> (\<exists>c. load_constant s (program_counter s) = Inr c
                 \<and> \<not> operand_in_range d s instruction c))"
proof (cases "instruction \<in> instructions_taking_arguments s")
  case False
  from print_instruction_total [OF n, of s None] obtain s' where
    "print_instruction d s instruction None = Inr s'" ..
  with False r show ?thesis by (simp add: disassemble_instruction_def)
next
  case True
  show ?thesis
  proof (cases "program_counter s + 2 < length (bytecode s)")
    case False
    from load_constant_fails [OF False] True r False show ?thesis
      by (simp add: disassemble_instruction_def)
  next
    case avail: True
    let ?c = "or (push_bit 8 (bytecode s ! (program_counter s + 2)))
                 (bytecode s ! (program_counter s + 1))"
    have c: "load_constant s (program_counter s) = Inr ?c"
      by (rule load_constant_eq [OF avail])
    show ?thesis
    proof (cases "load_argument d s instruction ?c")
      case (Inl e')
      from load_argument_Inl [OF avail Inl] True r c Inl show ?thesis
        by (simp add: disassemble_instruction_def)
    next
      case (Inr a)
      from print_instruction_total [OF n, of s "Some (?c, a)"] obtain s' where
        "print_instruction d s instruction (Some (?c, a)) = Inr s'" ..
      with True r c Inr show ?thesis by (simp add: disassemble_instruction_def)
    qed
  qed
qed

lemma at_stop_sequence_total:
  "program_counter s < length (bytecode s) \<Longrightarrow> \<exists>b. at_stop_sequence s instruction = Inr b"
  by (auto simp add: at_stop_sequence_def getitem_def)

lemma loop_body_Inl:
  assumes p: "program_counter s < length (bytecode s)"
    and n: "bytecode s ! program_counter s < length (opname d)"
    and r: "loop_body d s = Inl e"
  shows "e = IndexError
       \<and> bytecode s ! program_counter s \<in> instructions_taking_arguments s
       \<and> (\<not> program_counter s + 2 < length (bytecode s)
          \<or> (\<exists>c. load_constant s (program_counter s) = Inr c
                 \<and> \<not> operand_in_range d s (bytecode s ! program_counter s) c))"
proof -
  let ?i = "bytecode s ! program_counter s"
  have c: "current_instruction s = Inr ?i"
    using p by (simp add: current_instruction_def getitem_def)
  from at_stop_sequence_total [OF p] obtain b where b: "at_stop_sequence s ?i = Inr b" ..
  from r c b have "disassemble_instruction d s ?i = Inl e"
    by (cases b) (simp_all add: loop_body_def)
  from disassemble_instruction_Inl [OF n this] show ?thesis .
qed

lemma disassemble_Inl:
  assumes "disassemble d s = Inl (e, s')"
  shows "bytecode s' = bytecode s \<and> code_object s' = code_object s
       \<and> instructions_taking_arguments s' = instructions_taking_arguments s
       \<and> program_counter s' < length (bytecode s') \<and> loop_body d s' = Inl e"
  using assms
proof (induction d s rule: disassemble.induct)
  case (1 d s)
  show ?case
  proof (cases "program_counter s < length (bytecode s)")
    case False
    with "1.prems" show ?thesis by (simp add: disassemble.simps [of d s])
  next
    case True
    show ?thesis
    proof (cases "loop_body d s")
      case (Inl e0)
      with True "1.prems" show ?thesis by (simp add: disassemble.simps [of d s])
    next
      case (Inr s1)
      with True "1.prems" have "disassemble d s1 = Inl (e, s')"
        by (simp add: disassemble.simps [of d s])
      from "1.IH" [OF True Inr this] loop_body_frame [OF Inr] show ?thesis by auto
    qed
  qed
qed

lemma operand_in_range_code_object:
  "code_object s' = code_object s \<Longrightarrow>
   operand_in_range d s' instruction constant = operand_in_range d s instruction constant"
  by (simp add: operand_in_range_def)

lemma example_bad_index_init:
  "Disassembler_init example_dis example_bad_index_code = Inr example_bad_index"
  by (simp add: Disassembler_init_def LineNumbering_init_def example_bad_index_code_def
      example_bad_index_def example_code_def example_start_def line_step_def bytecode_step_def)

lemma example_bad_index_run:
  "disassemble example_dis example_bad_index = Inl (IndexError, example_bad_index)"
proof (rule disassemble_fail)
  show "program_counter example_bad_index < length (bytecode example_bad_index)"
    by (simp add: example_bad_index_def example_start_def)
  show "loop_body example_dis example_bad_index = Inl IndexError"
    by (simp add: eval_defs example_bad_index_def example_bad_index_code_def
        example_start_def example_code_def example_opname_nth)
qed

lemma example_truncated_run:
  "disassemble example_dis example_truncated = Inl (IndexError, example_truncated_failed)"
proof -
  have t1: "loop_body example_dis example_truncated = Inr example_truncated_failed"
    by (simp add: eval_defs example_truncated_def example_truncated_failed_def
        example_start_def example_opname_nth)
  have t2: "loop_body example_dis example_truncated_failed = Inl IndexError"
    by (simp add: eval_defs example_truncated_def example_truncated_failed_def
        example_start_def example_opname_nth)
  have "disassemble example_dis example_truncated
          = disassemble example_dis example_truncated_failed"
    by (rule disassemble_step [OF _ t1]) (simp add: example_truncated_def example_start_def)
  also have "\<dots> = Inl (IndexError, example_truncated_failed)"
    by (rule disassemble_fail [OF _ t2])
      (simp add: example_truncated_failed_def example_truncated_def example_start_def)
  finally show ?thesis .
qed

lemma example_lines_init:
  "Disassembler_init example_dis example_lines_code = Inr example_lines_start"
  by (simp add: Disassembler_init_def LineNumbering_init_def example_lines_code_def
      example_lines_start_def line_step_def bytecode_step_def)

lemma example_lines_run:
  "disassemble example_dis example_lines_start = Inr example_lines_final"
proof -
  have t1: "loop_body example_dis example_lines_start = Inr example_lines_middle"
    by (simp add: eval_defs example_lines_start_def example_lines_middle_def
        example_opname_nth)
  have t2: "loop_body example_dis example_lines_middle = Inr example_lines_later"
    by (simp add: eval_defs example_lines_start_def example_lines_middle_def
        example_lines_later_def example_opname_nth)
  have t3: "loop_body example_dis example_lines_later = Inr example_lines_final"
    by (simp add: eval_defs example_lines_start_def example_lines_later_def
        example_lines_final_def example_opname_nth)
  have "disassemble example_dis example_lines_start
          = disassemble example_dis example_lines_middle"
    by (rule disassemble_step [OF _ t1]) (simp add: example_lines_start_def)
  also have "\<dots> = disassemble example_dis example_lines_later"
    by (rule disassemble_step [OF _ t2])
      (simp add: example_lines_middle_def example_lines_start_def)
  also have "\<dots> = disassemble example_dis example_lines_final"
    by (rule disassemble_step [OF _ t3])
      (simp add: example_lines_later_def example_lines_start_def)
  also have "\<dots> = Inr example_lines_final"
    by (rule disassemble_done) (simp add: example_lines_final_def example_lines_start_def)
  finally show ?thesis .
qed


lemma example_compare_init:
  "Disassembler_init example_dis example_compare_code = Inr example_compare"
  by (simp add: Disassembler_init_def LineNumbering_init_def example_compare_code_def
      example_compare_def example_code_def example_start_def line_step_def bytecode_step_def)

lemma example_call_init:
  "Disassembler_init example_dis example_call_code = Inr example_call"
  by (simp add: Disassembler_init_def LineNumbering_init_def example_call_code_def
      example_call_def example_code_def example_start_def line_step_def bytecode_step_def)

lemma example_truncated_init:
  "Disassembler_init example_dis example_truncated_code = Inr example_truncated"
  by (simp add: Disassembler_init_def LineNumbering_init_def example_truncated_code_def
      example_truncated_def example_code_def example_start_def line_step_def bytecode_step_def)

lemma example_jump_init:
  "Disassembler_init example_dis example_jump_code = Inr example_jump_start"
  by (simp add: Disassembler_init_def LineNumbering_init_def example_jump_code_def
      example_jump_start_def example_code_def example_start_def line_step_def
      bytecode_step_def)

lemmas skip_defs =
  loop_body_def current_instruction_def at_stop_sequence_def getitem_def
  POP_TOP_def STOP_CODE_def example_jump_start_def example_start_def

lemma example_jump_reached:
  "disassemble example_dis example_jump_start = disassemble example_dis example_jump"
proof -
  have "example_jump_start = example_jump_start\<lparr>program_counter := 0\<rparr>"
    by (simp add: example_jump_start_def example_start_def)
  then have "disassemble example_dis example_jump_start
        = disassemble example_dis (example_jump_start\<lparr>program_counter := 0\<rparr>)"
    by simp
  also have "\<dots> = disassemble example_dis (example_jump_start\<lparr>program_counter := 2\<rparr>)"
    by (rule disassemble_step) (simp_all add: skip_defs)
  also have "\<dots> = disassemble example_dis (example_jump_start\<lparr>program_counter := 4\<rparr>)"
    by (rule disassemble_step) (simp_all add: skip_defs)
  also have "\<dots> = disassemble example_dis (example_jump_start\<lparr>program_counter := 6\<rparr>)"
    by (rule disassemble_step) (simp_all add: skip_defs)
  also have "\<dots> = disassemble example_dis (example_jump_start\<lparr>program_counter := 8\<rparr>)"
    by (rule disassemble_step) (simp_all add: skip_defs)
  also have "\<dots> = disassemble example_dis (example_jump_start\<lparr>program_counter := 10\<rparr>)"
    by (rule disassemble_step) (simp_all add: skip_defs)
  finally show ?thesis by (simp add: example_jump_def)
qed

section \<open>The claims\<close>

subsection \<open>C1\<close>

text \<open>
  Claim C1, as the code has it. For an opcode that takes an argument, whose constant and
  argument were loaded, the record printed is the line-number field, the program counter,
  a space and the name of the opcode, left-justified to \<open>FORMAT_WIDTH\<close>, followed by the
  raw constant and then the decoded argument in parentheses. For a name opcode with
  constant 0 and names \<open>x\<close> the argument part is \<open>0 (x)\<close>.
\<close>

theorem operand_record_format:
  assumes "instruction \<in> instructions_taking_arguments s"
    and "load_constant s (program_counter s) = Inr constant"
    and "load_argument d s instruction constant = Inr argument"
    and "instruction < length (opname d)"
  shows "\<exists>field s1. format_line_number s = Inr (field, s1)
         \<and> disassemble_instruction d s instruction =
             Inr (s1\<lparr>output_file := output_file s1 @
                     [ljust (FORMAT_WIDTH d)
                        (field @ str_nat (program_counter s) @ '' '' @ opname d ! instruction)
                      @ str_nat constant @ '' ('' @ str_obj argument @ '')''],
                    program_counter := program_counter s + 3\<rparr>)"
proof -
  obtain field s1 where f: "format_line_number s = Inr (field, s1)"
    using format_line_number_total [of s] by blast
  from disassemble_instruction_operand [OF assms f] f show ?thesis by blast
qed

theorem operand_record_format_witness:
  "101 \<in> instructions_taking_arguments example_middle
   \<and> load_constant example_middle (program_counter example_middle) = Inr 0
   \<and> load_argument example_dis example_middle 101 0 = Inr (PyStr ''x'')
   \<and> 101 < length (opname example_dis)
   \<and> (\<exists>s'. disassemble_instruction example_dis example_middle 101 = Inr s'
         \<and> output_file s' = [''1       0 NOP'', ''        1 LOAD_NAME         0 (x)'']
         \<and> program_counter s' = 4)"
proof -
  have h: "101 \<in> instructions_taking_arguments example_middle"
    "load_constant example_middle (program_counter example_middle) = Inr 0"
    "load_argument example_dis example_middle 101 0 = Inr (PyStr ''x'')"
    "101 < length (opname example_dis)"
    by (simp_all add: example_middle_def example_start_def example_code_def
        join_instructions_that_take_arguments_def example_dis_fields example_opname_length
        load_constant_def load_argument_def getitem_def)
  have f: "format_line_number example_middle = Inr (''        '', example_middle)"
    by (simp add: eval_defs example_middle_def example_start_def)
  have v: "program_counter example_middle = 1" "output_file example_middle = [''1       0 NOP'']"
    by (simp_all add: example_middle_def example_start_def)
  from operand_record_format [OF h] obtain s' where
    "disassemble_instruction example_dis example_middle 101 = Inr s'"
    "output_file s' = [''1       0 NOP'', ''        1 LOAD_NAME         0 (x)'']"
    "program_counter s' = 4"
    by (auto simp add: f v example_dis_fields example_opname_nth example_FORMAT_WIDTH
        ljust_def str_nat_digit digit_char_def replicate_num)
  with h show ?thesis by blast
qed

text \<open>
  Claim C1 as stated fails. The code object with the instructions \<open>NOP\<close> and
  \<open>LOAD_NAME 0\<close>, the names \<open>x\<close>, first line 1 and the line table \<open>(0, 0)\<close> is
  disassembled into two records; after the column \<open>FORMAT_WIDTH\<close> the second record reads
  \<open>0 (x)\<close>, the raw constant first and the name in parentheses, not the name followed by
  the constant in parentheses.
\<close>

theorem operand_record_format_counterexample:
  "Disassembler_init example_dis example_code = Inr example_start
   \<and> disassemble example_dis example_start = Inr example_final
   \<and> output_file example_final = [''1       0 NOP'', ''        1 LOAD_NAME         0 (x)'']
   \<and> drop (FORMAT_WIDTH example_dis) (output_file example_final ! 1) = ''0 (x)''
   \<and> drop (FORMAT_WIDTH example_dis) (output_file example_final ! 1) \<noteq> ''x (0)''
   \<and> drop (FORMAT_WIDTH example_dis) (output_file example_final ! 1) \<noteq> CHR 0x22 # ''x'' @ CHR 0x22 # '' (0)''"
proof -
  have o: "output_file example_final =
             [''1       0 NOP'', ''        1 LOAD_NAME         0 (x)'']"
    by (simp add: example_final_def example_middle_def example_start_def)
  show ?thesis
    by (simp add: example_init example_run example_FORMAT_WIDTH o)
qed

subsection \<open>C2\<close>

text \<open>
  Claim C2, at the failing input. For \<open>co_firstlineno = 1\<close> and
  \<open>co_lnotab = [0, 1, 6, 2]\<close> the constructor leaves line number 2, next address 0 and
  the pair (6, 2) unread. \<open>step\<close> then adds the line step 1 of the pair it already
  holds, not the line step 2 of the pair it reads next: the line number becomes 3, the
  next address 6. For \<open>co_lnotab = [0, 1]\<close>, where no pair is left, \<open>step\<close> raises
  the line number to 3 as well before it marks the object exhausted.
\<close>

theorem step_adds_held_line_step:
  "LineNumbering_init (example_code\<lparr>co_lnotab := [0, 1, 6, 2]\<rparr>) =
     Inr \<lparr>iterator = [(6, 2)], steps = (0, 1), line_number = 2, next_address = 0,
          is_exhausted = False\<rparr>
   \<and> step \<lparr>iterator = [(6, 2)], steps = (0, 1), line_number = 2, next_address = 0,
            is_exhausted = False\<rparr> =
     Inr \<lparr>iterator = [], steps = (6, 2), line_number = 3, next_address = 6,
          is_exhausted = False\<rparr>
   \<and> LineNumbering_init (example_code\<lparr>co_lnotab := [0, 1]\<rparr>) =
     Inr \<lparr>iterator = [], steps = (0, 1), line_number = 2, next_address = 0,
          is_exhausted = False\<rparr>
   \<and> step \<lparr>iterator = [], steps = (0, 1), line_number = 2, next_address = 0,
            is_exhausted = False\<rparr> =
     Inr \<lparr>iterator = [], steps = (0, 1), line_number = 3, next_address = 0,
          is_exhausted = True\<rparr>"
  by (simp add: LineNumbering_init_def step_def try_step_def example_code_def
      line_step_def bytecode_step_def)

subsection \<open>C3\<close>

text \<open>
  Claim C3. \<open>at_new_line\<close> leaves the object as it was and returns \<open>False\<close> for an
  exhausted object, \<open>next_address \<le> program_counter\<close> otherwise. An exhausted object stays
  exhausted through every sequence of calls of its methods, so that \<open>at_new_line\<close> returns
  \<open>False\<close> after each of them; and a walk that finds its line numbering exhausted ends
  with the same line numbering.
\<close>

theorem at_new_line_and_exhaustion:
  "at_new_line ln pc = (\<not> is_exhausted ln \<and> next_address ln \<le> pc, ln)
   \<and> (is_exhausted ln \<longrightarrow>
        is_exhausted (after_calls ln cs) \<and> fst (at_new_line (after_calls ln cs) pc') = False)
   \<and> (is_exhausted (line_numbering s) \<longrightarrow>
        line_numbering (final_state (disassemble d s)) = line_numbering s)"
  by (simp add: at_new_line_def after_calls_exhausted disassemble_exhausted)

theorem at_new_line_and_exhaustion_witness:
  "is_exhausted (line_numbering example_middle)
   \<and> at_new_line (line_numbering example_middle) 1 = (False, line_numbering example_middle)
   \<and> is_exhausted (after_calls (line_numbering example_middle) [Step, AtNewLine 2, TryStep])
   \<and> fst (at_new_line (after_calls (line_numbering example_middle) [Step, AtNewLine 2, TryStep]) 3)
       = False
   \<and> line_numbering (final_state (disassemble example_dis example_middle))
       = line_numbering example_middle"
proof -
  have h: "is_exhausted (line_numbering example_middle)"
    by (simp add: example_middle_def)
  from at_new_line_and_exhaustion
    [of "line_numbering example_middle" 1 "[Step, AtNewLine 2, TryStep]" 3
      example_middle example_dis] h
  show ?thesis by simp
qed

subsection \<open>C4\<close>

text \<open>
  Claim C4, as the code has it. A walk over bytes that are all indices of \<open>dis.opname\<close>
  raises only \<open>IndexError\<close>, only at an opcode that takes an argument, and only when
  fewer than two bytes follow that opcode or when the constant of a name, local or constant
  opcode is not an index of its table. The instruction where it raises prints nothing
  and ends the walk. A walk over bytes among which every opcode that takes an argument,
  at whatever offset, is followed by two bytes that give a constant in range raises
  nothing.
\<close>

theorem disassemble_raises_only_on_bad_operand:
  assumes "\<forall>b\<in>set (bytecode s). b < length (opname d)"
  shows "(disassemble d s = Inl (e, s') \<longrightarrow>
            e = IndexError
          \<and> program_counter s' < length (bytecode s)
          \<and> bytecode s ! program_counter s' \<in> instructions_taking_arguments s
          \<and> loop_body d s' = Inl IndexError
          \<and> (\<not> program_counter s' + 2 < length (bytecode s)
             \<or> \<not> operand_in_range d s (bytecode s ! program_counter s')
                   (or (push_bit 8 (bytecode s ! (program_counter s' + 2)))
                       (bytecode s ! (program_counter s' + 1)))))
       \<and> ((\<forall>pc<length (bytecode s).
              bytecode s ! pc \<in> instructions_taking_arguments s \<longrightarrow>
                pc + 2 < length (bytecode s)
              \<and> operand_in_range d s (bytecode s ! pc)
                   (or (push_bit 8 (bytecode s ! (pc + 2))) (bytecode s ! (pc + 1))))
           \<longrightarrow> (\<exists>s''. disassemble d s = Inr s''))"
proof -
  have fails: "e = IndexError
          \<and> program_counter s' < length (bytecode s)
          \<and> bytecode s ! program_counter s' \<in> instructions_taking_arguments s
          \<and> loop_body d s' = Inl IndexError
          \<and> (\<not> program_counter s' + 2 < length (bytecode s)
             \<or> \<not> operand_in_range d s (bytecode s ! program_counter s')
                   (or (push_bit 8 (bytecode s ! (program_counter s' + 2)))
                       (bytecode s ! (program_counter s' + 1))))"
    if r: "disassemble d s = Inl (e, s')" for e s'
  proof -
    from disassemble_Inl [OF r] have k: "bytecode s' = bytecode s"
      "code_object s' = code_object s"
      "instructions_taking_arguments s' = instructions_taking_arguments s"
      "program_counter s' < length (bytecode s')" "loop_body d s' = Inl e"
      by blast+
    from k(1,4) assms have n: "bytecode s' ! program_counter s' < length (opname d)"
      by simp
    from loop_body_Inl [OF k(4) n k(5)] have e: "e = IndexError"
      and t: "bytecode s' ! program_counter s' \<in> instructions_taking_arguments s'"
      and c: "\<not> program_counter s' + 2 < length (bytecode s')
          \<or> (\<exists>c. load_constant s' (program_counter s') = Inr c
                 \<and> \<not> operand_in_range d s' (bytecode s' ! program_counter s') c)"
      by simp_all
    have "\<not> program_counter s' + 2 < length (bytecode s)
             \<or> \<not> operand_in_range d s (bytecode s ! program_counter s')
                   (or (push_bit 8 (bytecode s ! (program_counter s' + 2)))
                       (bytecode s ! (program_counter s' + 1)))"
    proof (cases "program_counter s' + 2 < length (bytecode s')")
      case False
      with k(1) show ?thesis by simp
    next
      case True
      with c load_constant_eq [OF True]
      have "\<not> operand_in_range d s' (bytecode s' ! program_counter s')
                (or (push_bit 8 (bytecode s' ! (program_counter s' + 2)))
                    (bytecode s' ! (program_counter s' + 1)))"
        by auto
      with k(1) operand_in_range_code_object [OF k(2)] show ?thesis by simp
    qed
    with e t k show ?thesis by simp
  qed
  have runs: "\<exists>s''. disassemble d s = Inr s''"
    if w: "\<forall>pc<length (bytecode s).
              bytecode s ! pc \<in> instructions_taking_arguments s \<longrightarrow>
                pc + 2 < length (bytecode s)
              \<and> operand_in_range d s (bytecode s ! pc)
                   (or (push_bit 8 (bytecode s ! (pc + 2))) (bytecode s ! (pc + 1)))"
  proof (cases "disassemble d s")
    case (Inr s'')
    then show ?thesis by blast
  next
    case (Inl p)
    obtain e s' where "p = (e, s')" by (cases p)
    with Inl have "disassemble d s = Inl (e, s')" by simp
    from fails [OF this] w show ?thesis by blast
  qed
  from fails runs show ?thesis by blast
qed

theorem disassemble_raises_only_on_bad_operand_witness:
  "Disassembler_init example_dis example_truncated_code = Inr example_truncated
   \<and> length (opname example_dis) = 256
   \<and> bytecode example_truncated = [9, 101, 0]
   \<and> disassemble example_dis example_truncated = Inl (IndexError, example_truncated_failed)
   \<and> program_counter example_truncated_failed = 1
   \<and> bytecode example_truncated ! program_counter example_truncated_failed
        \<in> instructions_taking_arguments example_truncated
   \<and> \<not> program_counter example_truncated_failed + 2 < length (bytecode example_truncated)
   \<and> loop_body example_dis example_truncated_failed = Inl IndexError
   \<and> Disassembler_init example_dis example_bad_index_code = Inr example_bad_index
   \<and> bytecode example_bad_index = [101, 5, 0]
   \<and> disassemble example_dis example_bad_index = Inl (IndexError, example_bad_index)
   \<and> program_counter example_bad_index + 2 < length (bytecode example_bad_index)
   \<and> \<not> operand_in_range example_dis example_bad_index 101 5
   \<and> Disassembler_init example_dis example_code = Inr example_start
   \<and> bytecode example_start = [9, 101, 0, 0]
   \<and> co_names (code_object example_start) = [''x'']
   \<and> (\<exists>s''. disassemble example_dis example_start = Inr s'')"
proof -
  have h1: "\<forall>b\<in>set (bytecode example_truncated). b < length (opname example_dis)"
    by (simp add: example_truncated_def example_start_def example_dis_fields
        example_opname_length)
  have v: "bytecode example_truncated = [9, 101, 0]"
    "program_counter example_truncated_failed = 1"
    by (simp_all add: example_truncated_failed_def example_truncated_def example_start_def)
  from disassemble_raises_only_on_bad_operand
    [OF h1, of IndexError example_truncated_failed] example_truncated_run
  have a: "bytecode example_truncated ! program_counter example_truncated_failed
             \<in> instructions_taking_arguments example_truncated
         \<and> loop_body example_dis example_truncated_failed = Inl IndexError"
    by blast
  have b: "\<not> program_counter example_truncated_failed + 2 < length (bytecode example_truncated)"
    by (simp add: v)
  have h2: "\<forall>b\<in>set (bytecode example_start). b < length (opname example_dis)"
    by (simp add: example_start_def example_dis_fields example_opname_length)
  have four: "pc = 0 \<or> pc = 1 \<or> pc = 2 \<or> pc = 3" if "pc < 4" for pc :: nat
    using that by arith
  have w: "\<forall>pc<length (bytecode example_start).
         bytecode example_start ! pc \<in> instructions_taking_arguments example_start \<longrightarrow>
           pc + 2 < length (bytecode example_start)
         \<and> operand_in_range example_dis example_start (bytecode example_start ! pc)
              (or (push_bit 8 (bytecode example_start ! (pc + 2)))
                  (bytecode example_start ! (pc + 1)))"
  proof (rule allI, rule impI)
    fix pc
    assume "pc < length (bytecode example_start)"
    then have "pc < 4" by (simp add: example_start_def)
    from four [OF this]
    show "bytecode example_start ! pc \<in> instructions_taking_arguments example_start \<longrightarrow>
           pc + 2 < length (bytecode example_start)
         \<and> operand_in_range example_dis example_start (bytecode example_start ! pc)
              (or (push_bit 8 (bytecode example_start ! (pc + 2)))
                  (bytecode example_start ! (pc + 1)))"
      by (elim disjE)
        (simp_all add: example_start_def example_code_def operand_in_range_def
          join_instructions_that_take_arguments_def example_dis_fields)
  qed
  from disassemble_raises_only_on_bad_operand [OF h2] w
  have c: "\<exists>s''. disassemble example_dis example_start = Inr s''"
    by blast
  have u: "length (opname example_dis) = 256" "bytecode example_start = [9, 101, 0, 0]"
    "co_names (code_object example_start) = [''x'']"
    by (simp_all add: example_dis_fields example_opname_length example_start_def
        example_code_def)
  have h3: "\<forall>b\<in>set (bytecode example_bad_index). b < length (opname example_dis)"
    by (simp add: example_bad_index_def example_start_def example_dis_fields
        example_opname_length)
  have x: "bytecode example_bad_index = [101, 5, 0]" "program_counter example_bad_index = 0"
    by (simp_all add: example_bad_index_def example_start_def)
  from disassemble_raises_only_on_bad_operand [OF h3, of IndexError example_bad_index]
    example_bad_index_run
  have y: "\<not> operand_in_range example_dis example_bad_index 101 5"
    by (simp add: x)
  from example_truncated_run v a b c u example_truncated_init example_init
    example_bad_index_init example_bad_index_run x y
  show ?thesis by simp
qed

text \<open>
  Claim C4 as stated fails. The code object with the instruction \<open>LOAD_NAME 5\<close> and the
  single name \<open>x\<close> has both bytes of its operand, yet the walk raises \<open>IndexError\<close>, from
  \<open>co_names[5]\<close>.
\<close>

theorem disassemble_raises_counterexample:
  "Disassembler_init example_dis example_bad_index_code = Inr example_bad_index
   \<and> bytecode example_bad_index = [101, 5, 0]
   \<and> co_names (code_object example_bad_index) = [''x'']
   \<and> program_counter example_bad_index + 2 < length (bytecode example_bad_index)
   \<and> disassemble example_dis example_bad_index = Inl (IndexError, example_bad_index)"
proof -
  have "bytecode example_bad_index = [101, 5, 0]"
    "co_names (code_object example_bad_index) = [''x'']"
    "program_counter example_bad_index + 2 < length (bytecode example_bad_index)"
    by (simp_all add: example_bad_index_def example_bad_index_code_def example_start_def
        example_code_def)
  with example_bad_index_init example_bad_index_run show ?thesis by simp
qed

subsection \<open>C5\<close>



subsection \<open>C6\<close>

text \<open>
  Claim C6. For an opcode that \<open>_load_argument\<close> treats as a relative jump (it is in
  \<open>dis.hasjrel\<close> and in none of the lists tested before it), the decoded argument is the
  program counter of the instruction plus the constant: 15 for program counter 10 and
  constant 5.
\<close>

theorem relative_jump_target:
  assumes "instruction \<in> set (hasjrel d)"
    and "instruction \<notin> set (hasname d)" and "instruction \<notin> set (haslocal d)"
    and "instruction \<notin> set (hasconst d)" and "instruction \<notin> set (hasnargs d)"
  shows "load_argument d s instruction constant =
           Inr (PyInt (int (program_counter s) + int constant))"
  using assms by (simp add: load_argument_def)

theorem relative_jump_target_witness:
  "110 \<in> set (hasjrel example_dis)
   \<and> 110 \<notin> set (hasname example_dis) \<and> 110 \<notin> set (haslocal example_dis)
   \<and> 110 \<notin> set (hasconst example_dis) \<and> 110 \<notin> set (hasnargs example_dis)
   \<and> Disassembler_init example_dis example_jump_code = Inr example_jump_start
   \<and> disassemble example_dis example_jump_start = disassemble example_dis example_jump
   \<and> program_counter example_jump = 10
   \<and> current_instruction example_jump = Inr 110
   \<and> load_constant example_jump 10 = Inr 5
   \<and> load_argument example_dis example_jump 110 5 = Inr (PyInt 15)"
proof -
  have h: "110 \<in> set (hasjrel example_dis)"
    "110 \<notin> set (hasname example_dis)" "110 \<notin> set (haslocal example_dis)"
    "110 \<notin> set (hasconst example_dis)" "110 \<notin> set (hasnargs example_dis)"
    by (simp_all add: example_dis_fields)
  have v: "program_counter example_jump = 10" "current_instruction example_jump = Inr 110"
    "load_constant example_jump 10 = Inr 5"
    by (simp_all add: example_jump_def example_jump_start_def example_start_def
        current_instruction_def load_constant_def getitem_def)
  from relative_jump_target [OF h, of example_jump 5] h v example_jump_init example_jump_reached
  show ?thesis by simp
qed

subsection \<open>C7\<close>

text \<open>
  Claim C7. For an opcode that \<open>_load_argument\<close> treats as a call (it is in
  \<open>dis.hasnargs\<close> and in none of the lists tested before it), with two bytes after it,
  the decoded argument is the text \<open>p positional, k keyword pair\<close>, where \<open>p\<close> is the
  low byte and \<open>k\<close> the high byte of the 16-bit constant: \<open>2 positional, 1 keyword pair\<close>
  for the low byte 2 and the high byte 1.
\<close>

theorem call_arity_pair:
  assumes "instruction \<in> set (hasnargs d)"
    and "instruction \<notin> set (hasname d)" and "instruction \<notin> set (haslocal d)"
    and "instruction \<notin> set (hasconst d)"
    and "program_counter s + 2 < length (bytecode s)"
    and "\<forall>b\<in>set (bytecode s). b < 256"
  shows "\<exists>constant. load_constant s (program_counter s) = Inr constant
           \<and> constant mod 256 = bytecode s ! (program_counter s + 1)
           \<and> constant div 256 = bytecode s ! (program_counter s + 2)
           \<and> load_argument d s instruction constant =
               Inr (PyStr (str_nat (constant mod 256) @ '' positional, ''
                           @ str_nat (constant div 256) @ '' keyword pair''))"
proof -
  let ?lo = "bytecode s ! (program_counter s + 1)"
  let ?hi = "bytecode s ! (program_counter s + 2)"
  have "?lo \<in> set (bytecode s)" using assms(5) by simp
  with assms(6) have lo: "?lo < 256" by blast
  have "load_argument d s instruction (or (push_bit 8 ?hi) ?lo) =
          Inr (PyStr (str_nat ?lo @ '' positional, '' @ str_nat ?hi @ '' keyword pair''))"
    using assms(1-5)
    by (simp add: load_argument_def load_function_call_arguments_def getitem_def)
  with load_constant_eq [OF assms(5)] or_push_bit_low [OF lo, of ?hi]
    or_push_bit_high [OF lo, of ?hi]
  show ?thesis by simp
qed

theorem call_arity_pair_witness:
  "131 \<in> set (hasnargs example_dis)
   \<and> 131 \<notin> set (hasname example_dis) \<and> 131 \<notin> set (haslocal example_dis)
   \<and> 131 \<notin> set (hasconst example_dis)
   \<and> program_counter example_call + 2 < length (bytecode example_call)
   \<and> Disassembler_init example_dis example_call_code = Inr example_call
   \<and> bytecode example_call = [131, 2, 1]
   \<and> (\<exists>c. load_constant example_call 0 = Inr c
         \<and> c mod 256 = 2 \<and> c div 256 = 1
         \<and> load_argument example_dis example_call 131 c =
             Inr (PyStr ''2 positional, 1 keyword pair''))"
proof -
  have h: "131 \<in> set (hasnargs example_dis)"
    "131 \<notin> set (hasname example_dis)" "131 \<notin> set (haslocal example_dis)"
    "131 \<notin> set (hasconst example_dis)"
    by (simp_all add: example_dis_fields)
  have k: "program_counter example_call + 2 < length (bytecode example_call)"
    "\<forall>b\<in>set (bytecode example_call). b < 256"
    by (simp_all add: example_call_def example_start_def)
  have v: "program_counter example_call = 0" "bytecode example_call = [131, 2, 1]"
    by (simp_all add: example_call_def example_start_def)
  from call_arity_pair [OF h k] obtain c where
    "load_constant example_call 0 = Inr c" "c mod 256 = 2" "c div 256 = 1"
    "load_argument example_dis example_call 131 c = Inr (PyStr ''2 positional, 1 keyword pair'')"
    by (auto simp add: v str_nat_digit digit_char_def)
  with h k(1) v example_call_init show ?thesis by blast
qed

subsection \<open>C8\<close>



subsection \<open>C9\<close>

text \<open>
  Claim C9. The bytes of \<open>co_lnotab\<close> are natural numbers, so every increment is
  non-negative. The line number of a line numbering never decreases through any sequence
  of calls of its methods, \<open>step\<close> among them; and the line numbers that a walk prints,
  in the order it prints them, are non-decreasing, whether the walk returns or raises.
\<close>

theorem line_numbers_never_decrease:
  "line_number ln \<le> line_number (after_calls ln cs)
   \<and> (Disassembler_init d co = Inr s \<longrightarrow>
        sorted (printed_line_numbers (final_state (disassemble d s))))"
proof -
  have "sorted (printed_line_numbers (final_state (disassemble d s)))"
    if "Disassembler_init d co = Inr s"
    using disassemble_printed_ok [OF Disassembler_init_printed_ok [OF that], of d]
    by (simp add: printed_ok_def)
  then show ?thesis by (simp add: after_calls_line_number)
qed

theorem line_numbers_never_decrease_witness:
  "Disassembler_init example_dis example_lines_code = Inr example_lines_start
   \<and> line_number (line_numbering example_lines_start) = 2
   \<and> line_number (after_calls (line_numbering example_lines_start) [Step, Step, Step]) = 5
   \<and> line_number (line_numbering example_lines_start)
       \<le> line_number (after_calls (line_numbering example_lines_start) [Step, Step, Step])
   \<and> printed_line_numbers (final_state (disassemble example_dis example_lines_start)) = [2, 3, 4]
   \<and> sorted (printed_line_numbers (final_state (disassemble example_dis example_lines_start)))"
proof -
  have h: "Disassembler_init example_dis example_lines_code = Inr example_lines_start"
    by (rule example_lines_init)
  have a: "line_number (line_numbering example_lines_start) = 2"
    by (simp add: example_lines_start_def)
  have b: "line_number (after_calls (line_numbering example_lines_start) [Step, Step, Step]) = 5"
    by (simp add: after_calls_def step_def try_step_def line_step_def bytecode_step_def
        example_lines_start_def)
  have c: "printed_line_numbers (final_state (disassemble example_dis example_lines_start))
             = [2, 3, 4]"
    by (simp add: example_lines_run final_state_def example_lines_final_def)
  from line_numbers_never_decrease
    [of "line_numbering example_lines_start" "[Step, Step, Step]" example_dis
      example_lines_code example_lines_start] h
  have "line_number (line_numbering example_lines_start)
          \<le> line_number (after_calls (line_numbering example_lines_start) [Step, Step, Step])
        \<and> sorted (printed_line_numbers (final_state (disassemble example_dis example_lines_start)))"
    by blast
  with h a b c show ?thesis by blast
qed

subsection \<open>C10\<close>

text \<open>
  Claim C10. An opcode of \<open>dis.hascompare\<close> or \<open>dis.hasfree\<close> that is in none of the
  six lists \<open>_load_argument\<close> tests takes an argument for the disassembler: with two
  bytes after it the 16-bit constant is read, \<open>_load_argument\<close> returns \<open>None\<close>, the
  record printed ends with the constant followed by \<open>(None)\<close>, the program counter
  advances by 3 and nothing is raised.
\<close>

theorem undecoded_operand_prints_None:
  assumes "instructions_taking_arguments s = join_instructions_that_take_arguments d"
    and "instruction \<in> set (hascompare d) \<union> set (hasfree d)"
    and "instruction \<notin> set (hasname d)" and "instruction \<notin> set (haslocal d)"
    and "instruction \<notin> set (hasconst d)" and "instruction \<notin> set (hasnargs d)"
    and "instruction \<notin> set (hasjrel d)" and "instruction \<notin> set (hasjabs d)"
    and "program_counter s + 2 < length (bytecode s)"
    and "instruction < length (opname d)"
  shows "\<exists>constant field s1.
           load_constant s (program_counter s) = Inr constant
         \<and> load_argument d s instruction constant = Inr PyNone
         \<and> format_line_number s = Inr (field, s1)
         \<and> disassemble_instruction d s instruction =
             Inr (s1\<lparr>output_file := output_file s1 @
                     [ljust (FORMAT_WIDTH d)
                        (field @ str_nat (program_counter s) @ '' '' @ opname d ! instruction)
                      @ str_nat constant @ '' (None)''],
                    program_counter := program_counter s + 3\<rparr>)"
proof -
  let ?c = "or (push_bit 8 (bytecode s ! (program_counter s + 2)))
               (bytecode s ! (program_counter s + 1))"
  have t: "instruction \<in> instructions_taking_arguments s"
    using assms(1,2) by (auto simp: join_instructions_that_take_arguments_def)
  have c: "load_constant s (program_counter s) = Inr ?c"
    by (rule load_constant_eq [OF assms(9)])
  have a: "load_argument d s instruction ?c = Inr PyNone"
    using assms(3-8) by (simp add: load_argument_def)
  obtain field s1 where f: "format_line_number s = Inr (field, s1)"
    using format_line_number_total [of s] by blast
  from disassemble_instruction_operand [OF t c a assms(10) f] c a f
  show ?thesis by simp
qed

theorem undecoded_operand_prints_None_witness:
  "Disassembler_init example_dis example_compare_code = Inr example_compare
   \<and> instructions_taking_arguments example_compare
     = join_instructions_that_take_arguments example_dis
   \<and> 107 \<in> set (hascompare example_dis) \<union> set (hasfree example_dis)
   \<and> 107 \<notin> set (hasname example_dis) \<and> 107 \<notin> set (haslocal example_dis)
   \<and> 107 \<notin> set (hasconst example_dis) \<and> 107 \<notin> set (hasnargs example_dis)
   \<and> 107 \<notin> set (hasjrel example_dis) \<and> 107 \<notin> set (hasjabs example_dis)
   \<and> program_counter example_compare + 2 < length (bytecode example_compare)
   \<and> 107 < length (opname example_dis)
   \<and> load_constant example_compare 0 = Inr 2
   \<and> load_argument example_dis example_compare 107 2 = Inr PyNone
   \<and> (\<exists>s'. disassemble_instruction example_dis example_compare 107 = Inr s'
         \<and> output_file s' = [''1       0 COMPARE_OP        2 (None)'']
         \<and> program_counter s' = 3)"
proof -
  have h: "instructions_taking_arguments example_compare
             = join_instructions_that_take_arguments example_dis"
    "107 \<in> set (hascompare example_dis) \<union> set (hasfree example_dis)"
    "107 \<notin> set (hasname example_dis)" "107 \<notin> set (haslocal example_dis)"
    "107 \<notin> set (hasconst example_dis)" "107 \<notin> set (hasnargs example_dis)"
    "107 \<notin> set (hasjrel example_dis)" "107 \<notin> set (hasjabs example_dis)"
    "program_counter example_compare + 2 < length (bytecode example_compare)"
    "107 < length (opname example_dis)"
    by (simp_all add: example_compare_def example_start_def example_dis_fields
        example_opname_length)
  have c: "load_constant example_compare 0 = Inr 2"
    by (simp add: load_constant_def getitem_def example_compare_def example_start_def)
  have f: "format_line_number example_compare =
             Inr (''1       '',
                  example_compare\<lparr>line_numbering := \<lparr>iterator = [], steps = (0, 0),
                      line_number = 1, next_address = 0, is_exhausted = True\<rparr>,
                    printed_line_numbers := [1]\<rparr>)"
    by (simp add: eval_defs example_compare_def example_start_def)
  have pc: "program_counter example_compare = 0" "output_file example_compare = []"
    by (simp_all add: example_compare_def example_start_def)
  from undecoded_operand_prints_None [OF h] obtain s' where
    "load_argument example_dis example_compare 107 2 = Inr PyNone"
    "disassemble_instruction example_dis example_compare 107 = Inr s'"
    "output_file s' = [''1       0 COMPARE_OP        2 (None)'']"
    "program_counter s' = 3"
    by (auto simp add: c f pc example_dis_fields example_opname_nth_107 example_FORMAT_WIDTH
        ljust_def str_nat_digit digit_char_def replicate_num)
  with h c example_compare_init show ?thesis by blast
qed

end
